theory Spec2Isabelle
  imports Complex_Main
begin

section \<open>Data model\<close>

text \<open>
  The slew rate limiter of \<^verbatim>\<open>rate_limiter.c\<close> works on \<^verbatim>\<open>float32_t\<close>, a type the
  user declares in \<^verbatim>\<open>project_config.h\<close>, which is not part of the sources. The
  embedding therefore takes the number type as the type parameter \<open>'a\<close> and asks of it
  only the operations a function really uses (\<open>zero\<close>, \<open>plus\<close>, \<open>minus\<close>, \<open>uminus\<close>,
  \<open>times\<close>, \<open>inverse\<close> for the division, \<open>ord\<close> for the comparisons). These classes
  carry no laws, so a theorem stated over them holds for every arithmetic, rounded or
  exact. A theorem that needs laws of the arithmetic names the class that gives them in
  its statement, or is stated for the type \<open>float32\<close> defined below.
\<close>

datatype rate_limiter_status_t = eRATE_LIMITER_OK | eRATE_LIMITER_ERROR

record 'a rate_limiter_t =
  x_prev :: 'a
  k_rise :: 'a
  k_fall :: 'a
  dt :: 'a
  is_init :: bool

text \<open>
  \<^verbatim>\<open>p_rate_limiter\<close> is a pointer to the instance: \<open>None\<close> is \<^verbatim>\<open>NULL\<close>, \<open>Some s\<close>
  points to an instance whose fields are \<open>s\<close>. Every function that takes the pointer
  returns its result together with the instance as the call leaves it.
\<close>

type_synonym 'a p_rate_limiter = "'a rate_limiter_t option"

section \<open>The functions of src/rate\_limiter.c\<close>

definition rate_limiter_calc_rate_factor :: "'a::times \<Rightarrow> 'a \<Rightarrow> 'a" where
  "rate_limiter_calc_rate_factor dt' slew_rate = slew_rate * dt'"

text \<open>
  \<^verbatim>\<open>rate_limiter_init\<close> takes the address of the caller's handle: \<open>None\<close> is a
  \<^verbatim>\<open>NULL\<close> address, \<open>Some h\<close> the address of a handle that holds \<open>h\<close>. The last
  argument is what \<^verbatim>\<open>malloc\<close> returns: \<open>None\<close> when the allocation fails, \<open>Some blk\<close>
  for a fresh block of indeterminate contents \<open>blk\<close>. The result is the status and the
  handle as the call leaves it.
\<close>

definition rate_limiter_init ::
  "'a p_rate_limiter option \<Rightarrow> 'a::{zero,times,ord} \<Rightarrow> 'a \<Rightarrow> 'a \<Rightarrow> 'a p_rate_limiter
    \<Rightarrow> rate_limiter_status_t \<times> 'a p_rate_limiter option" where
  "rate_limiter_init p_rl_inst rise_rate fall_rate dt' malloc_result =
     (if p_rl_inst \<noteq> None \<and> dt' > 0 then
        (case malloc_result of
           None \<Rightarrow> (eRATE_LIMITER_OK, Some None)
         | Some blk \<Rightarrow>
             (eRATE_LIMITER_OK,
              Some (Some (blk\<lparr>x_prev := 0, dt := dt',
                k_rise := rate_limiter_calc_rate_factor dt' rise_rate,
                k_fall := rate_limiter_calc_rate_factor dt' fall_rate,
                is_init := True\<rparr>))))
      else (eRATE_LIMITER_ERROR, p_rl_inst))"

definition rate_limiter_update ::
  "'a p_rate_limiter \<Rightarrow> 'a::{zero,plus,minus,uminus,ord} \<Rightarrow> 'a \<times> 'a p_rate_limiter" where
  "rate_limiter_update rl_inst x =
     (case rl_inst of
        None \<Rightarrow> (0, None)
      | Some s \<Rightarrow>
          if is_init s then
            let dx = x - x_prev s;
                y = (if dx \<ge> k_rise s then x_prev s + k_rise s
                     else if dx \<le> - (k_fall s) then x_prev s - k_fall s
                     else x)
            in (y, Some (s\<lparr>x_prev := y\<rparr>))
          else (0, Some s))"

definition rate_limiter_is_init :: "'a p_rate_limiter \<Rightarrow> bool \<times> 'a p_rate_limiter" where
  "rate_limiter_is_init rl_inst =
     (case rl_inst of
        None \<Rightarrow> (False, None)
      | Some s \<Rightarrow> (is_init s, Some s))"

definition rate_limiter_change_rate ::
  "'a p_rate_limiter \<Rightarrow> 'a::times \<Rightarrow> 'a \<Rightarrow> rate_limiter_status_t \<times> 'a p_rate_limiter" where
  "rate_limiter_change_rate rl_inst rise_rate fall_rate =
     (case rl_inst of
        None \<Rightarrow> (eRATE_LIMITER_ERROR, None)
      | Some s \<Rightarrow>
          if is_init s then
            (eRATE_LIMITER_OK,
             Some (s\<lparr>k_rise := rate_limiter_calc_rate_factor (dt s) rise_rate,
                      k_fall := rate_limiter_calc_rate_factor (dt s) fall_rate\<rparr>))
          else (eRATE_LIMITER_ERROR, Some s))"

section \<open>The functions of the second rate\_limiter.c\<close>

text \<open>
  The repository holds a second file with the same five functions
  (\<^verbatim>\<open>src/unnamed/part_000\<close>). Its functions carry the suffix \<open>_alt\<close> here. It differs
  from the first file in three places: the rate factor is a quotient and is read from
  the instance, the guard of the initialisation tests the handle and not its address,
  and the last branch of the update is empty. \<^verbatim>\<open>NAN\<close> is a macro of \<^verbatim>\<open>math.h\<close>
  and is the first parameter of the functions that reach it.
\<close>

definition rate_limiter_calc_rate_factor_alt ::
  "'a \<Rightarrow> 'a::{zero,inverse} rate_limiter_t \<Rightarrow> 'a \<Rightarrow> 'a" where
  "rate_limiter_calc_rate_factor_alt NAN rl_inst slew_rate =
     (if dt rl_inst \<noteq> 0 then slew_rate / dt rl_inst else NAN)"

text \<open>
  The guard reads \<^verbatim>\<open>*p_rl_inst\<close> first, so a \<^verbatim>\<open>NULL\<close> address is dereferenced:
  the result \<open>None\<close> stands for that undefined behaviour. The rate factors are computed
  from the \<^verbatim>\<open>dt\<close> field of the fresh block, before the field is written.
\<close>

definition rate_limiter_init_alt ::
  "'a \<Rightarrow> 'a p_rate_limiter option \<Rightarrow> 'a::{zero,inverse,ord} \<Rightarrow> 'a \<Rightarrow> 'a \<Rightarrow> 'a p_rate_limiter
    \<Rightarrow> (rate_limiter_status_t \<times> 'a p_rate_limiter) option" where
  "rate_limiter_init_alt NAN p_rl_inst rise_rate fall_rate dt' malloc_result =
     (case p_rl_inst of
        None \<Rightarrow> None
      | Some h \<Rightarrow>
          Some (if h \<noteq> None \<and> dt' > 0 then
                  (case malloc_result of
                     None \<Rightarrow> (eRATE_LIMITER_OK, None)
                   | Some blk \<Rightarrow>
                       let b1 = blk\<lparr>k_rise := rate_limiter_calc_rate_factor_alt NAN blk rise_rate\<rparr>;
                           b2 = b1\<lparr>k_fall := rate_limiter_calc_rate_factor_alt NAN b1 fall_rate\<rparr>
                       in (eRATE_LIMITER_OK,
                           Some (b2\<lparr>x_prev := 0, dt := dt', is_init := True\<rparr>)))
                else (eRATE_LIMITER_ERROR, h)))"

definition rate_limiter_update_alt ::
  "'a p_rate_limiter \<Rightarrow> 'a::{zero,plus,minus,uminus,ord} \<Rightarrow> 'a \<times> 'a p_rate_limiter" where
  "rate_limiter_update_alt rl_inst x =
     (case rl_inst of
        None \<Rightarrow> (0, None)
      | Some s \<Rightarrow>
          if is_init s then
            let dx = x - x_prev s;
                y = (if dx \<ge> k_rise s then x_prev s + k_rise s
                     else if dx \<le> - (k_fall s) then x_prev s - k_fall s
                     else 0)
            in (y, Some (s\<lparr>x_prev := y\<rparr>))
          else (0, Some s))"

definition rate_limiter_is_init_alt :: "'a p_rate_limiter \<Rightarrow> bool \<times> 'a p_rate_limiter" where
  "rate_limiter_is_init_alt rl_inst =
     (case rl_inst of
        None \<Rightarrow> (False, None)
      | Some s \<Rightarrow> (is_init s, Some s))"

definition rate_limiter_change_rate_alt ::
  "'a \<Rightarrow> 'a p_rate_limiter \<Rightarrow> 'a::{zero,inverse} \<Rightarrow> 'a
    \<Rightarrow> rate_limiter_status_t \<times> 'a p_rate_limiter" where
  "rate_limiter_change_rate_alt NAN rl_inst rise_rate fall_rate =
     (case rl_inst of
        None \<Rightarrow> (eRATE_LIMITER_ERROR, None)
      | Some s \<Rightarrow>
          if is_init s then
            let s1 = s\<lparr>k_rise := rate_limiter_calc_rate_factor_alt NAN s rise_rate\<rparr>;
                s2 = s1\<lparr>k_fall := rate_limiter_calc_rate_factor_alt NAN s1 fall_rate\<rparr>
            in (eRATE_LIMITER_OK, Some s2)
          else (eRATE_LIMITER_ERROR, Some s))"

section \<open>Sequences of calls\<close>

text \<open>
  A caller holds one handle and calls \<^verbatim>\<open>rate_limiter_update\<close>,
  \<^verbatim>\<open>rate_limiter_change_rate\<close> and \<^verbatim>\<open>rate_limiter_is_init\<close> on it in any order.
  \<open>rate_limiter_call\<close> is one such call, \<open>rate_limiter_calls\<close> a sequence of them; both
  return the instance as the calls leave it. \<open>rate_limiter_updates\<close> feeds a sequence
  of samples to \<^verbatim>\<open>rate_limiter_update\<close> and collects the outputs.
\<close>

datatype 'a rate_limiter_op = Update 'a | Change_rate 'a 'a | Is_init

fun rate_limiter_call ::
  "'a p_rate_limiter \<Rightarrow> 'a::{zero,plus,minus,uminus,times,ord} rate_limiter_op \<Rightarrow> 'a p_rate_limiter" where
  "rate_limiter_call rl_inst (Update x) = snd (rate_limiter_update rl_inst x)"
| "rate_limiter_call rl_inst (Change_rate rise_rate fall_rate) =
     snd (rate_limiter_change_rate rl_inst rise_rate fall_rate)"
| "rate_limiter_call rl_inst Is_init = snd (rate_limiter_is_init rl_inst)"

fun rate_limiter_calls ::
  "'a p_rate_limiter \<Rightarrow> 'a::{zero,plus,minus,uminus,times,ord} rate_limiter_op list \<Rightarrow> 'a p_rate_limiter" where
  "rate_limiter_calls rl_inst [] = rl_inst"
| "rate_limiter_calls rl_inst (c # cs) = rate_limiter_calls (rate_limiter_call rl_inst c) cs"

fun rate_limiter_updates ::
  "'a p_rate_limiter \<Rightarrow> 'a::{zero,plus,minus,uminus,ord} list \<Rightarrow> 'a list \<times> 'a p_rate_limiter" where
  "rate_limiter_updates rl_inst [] = ([], rl_inst)"
| "rate_limiter_updates rl_inst (x # xs) =
     (case rate_limiter_update rl_inst x of
        (y, rl_inst') \<Rightarrow>
          (case rate_limiter_updates rl_inst' xs of
             (ys, rl_inst'') \<Rightarrow> (y # ys, rl_inst'')))"

section \<open>A model of float32\_t\<close>

text \<open>
  The README asks the user for \<^verbatim>\<open>typedef float float32_t;\<close>. Where \<^verbatim>\<open>float\<close> is the
  binary32 format of IEEE 754, a value is a finite number, one of two infinities, or NaN.
  \<open>round32\<close> rounds a real number to the nearest number with a significand of 24 bits
  and an exponent of at least \<open>- 149\<close>, a tie to the even significand (\<open>rne\<close>), and
  gives an infinity from \<open>2 ^ 128\<close> on. A sum or product of finite values is the rounded
  exact result; a difference is the sum with the negated value; every comparison with
  NaN is false. The sign of zero is not modelled: no comparison reads it. \<open>is_float32\<close>
  holds of the infinities and of the finite values that rounding leaves as they are.
  The type is an instance of the classes the functions of the first file ask for, so
  every one of them runs on it.
\<close>

datatype float32 = Finite real | PInf | NInf | NaN

definition rne :: "real \<Rightarrow> int" where
  "rne t = (if t + 1/2 = of_int \<lfloor>t + 1/2\<rfloor> \<and> odd \<lfloor>t + 1/2\<rfloor>
            then \<lfloor>t + 1/2\<rfloor> - 1 else \<lfloor>t + 1/2\<rfloor>)"

definition fexp :: "real \<Rightarrow> int" where
  "fexp q = max (\<lfloor>log 2 \<bar>q\<bar>\<rfloor> - 23) (- 149)"

definition round_pos :: "real \<Rightarrow> real" where
  "round_pos q = of_int (rne (q / 2 powi fexp q)) * 2 powi fexp q"

definition round_fin :: "real \<Rightarrow> real" where
  "round_fin q = (if q = 0 then 0 else sgn q * round_pos \<bar>q\<bar>)"

definition round32 :: "real \<Rightarrow> float32" where
  "round32 q =
     (let v = round_fin q
      in if v \<ge> 2 ^ 128 then PInf else if v \<le> - (2 ^ 128) then NInf else Finite v)"

fun float32_neg :: "float32 \<Rightarrow> float32" where
  "float32_neg (Finite a) = Finite (- a)"
| "float32_neg PInf = NInf"
| "float32_neg NInf = PInf"
| "float32_neg NaN = NaN"

fun float32_add :: "float32 \<Rightarrow> float32 \<Rightarrow> float32" where
  "float32_add (Finite a) (Finite b) = round32 (a + b)"
| "float32_add NaN b = NaN"
| "float32_add a NaN = NaN"
| "float32_add PInf NInf = NaN"
| "float32_add NInf PInf = NaN"
| "float32_add PInf b = PInf"
| "float32_add a PInf = PInf"
| "float32_add NInf b = NInf"
| "float32_add a NInf = NInf"

fun float32_mul :: "float32 \<Rightarrow> float32 \<Rightarrow> float32" where
  "float32_mul (Finite a) (Finite b) = round32 (a * b)"
| "float32_mul NaN b = NaN"
| "float32_mul a NaN = NaN"
| "float32_mul (Finite a) PInf = (if a > 0 then PInf else if a < 0 then NInf else NaN)"
| "float32_mul (Finite a) NInf = (if a > 0 then NInf else if a < 0 then PInf else NaN)"
| "float32_mul PInf (Finite b) = (if b > 0 then PInf else if b < 0 then NInf else NaN)"
| "float32_mul NInf (Finite b) = (if b > 0 then NInf else if b < 0 then PInf else NaN)"
| "float32_mul PInf PInf = PInf"
| "float32_mul NInf NInf = PInf"
| "float32_mul PInf NInf = NInf"
| "float32_mul NInf PInf = NInf"

fun float32_le :: "float32 \<Rightarrow> float32 \<Rightarrow> bool" where
  "float32_le (Finite a) (Finite b) = (a \<le> b)"
| "float32_le NaN b = False"
| "float32_le a NaN = False"
| "float32_le NInf b = True"
| "float32_le a PInf = True"
| "float32_le a NInf = False"
| "float32_le PInf b = False"

fun float32_lt :: "float32 \<Rightarrow> float32 \<Rightarrow> bool" where
  "float32_lt (Finite a) (Finite b) = (a < b)"
| "float32_lt NaN b = False"
| "float32_lt a NaN = False"
| "float32_lt a NInf = False"
| "float32_lt PInf b = False"
| "float32_lt NInf b = True"
| "float32_lt a PInf = True"

instantiation float32 :: "{zero,plus,minus,uminus,times,ord}"
begin

definition zero_float32_def: "0 = Finite 0"

definition plus_float32_def: "a + b = float32_add a b"

definition uminus_float32_def: "- a = float32_neg a"

definition minus_float32_def: "a - b = float32_add a (float32_neg b)"

definition times_float32_def: "a * b = float32_mul a b"

definition less_eq_float32_def: "a \<le> b = float32_le a b"

definition less_float32_def: "a < b = float32_lt a b"

instance ..

end

definition is_float32 :: "float32 \<Rightarrow> bool" where
  "is_float32 v =
     (case v of Finite q \<Rightarrow> round32 q = Finite q | PInf \<Rightarrow> True | NInf \<Rightarrow> True | NaN \<Rightarrow> False)"

section \<open>The update step\<close>

lemma rate_limiter_update_rise:
  "is_init s \<Longrightarrow> x - x_prev s \<ge> k_rise s \<Longrightarrow>
     rate_limiter_update (Some s) x =
       (x_prev s + k_rise s, Some (s\<lparr>x_prev := x_prev s + k_rise s\<rparr>))"
  by (simp add: rate_limiter_update_def Let_def)

lemma rate_limiter_update_fall:
  "is_init s \<Longrightarrow> \<not> x - x_prev s \<ge> k_rise s \<Longrightarrow> x - x_prev s \<le> - k_fall s \<Longrightarrow>
     rate_limiter_update (Some s) x =
       (x_prev s - k_fall s, Some (s\<lparr>x_prev := x_prev s - k_fall s\<rparr>))"
  by (simp add: rate_limiter_update_def Let_def)

lemma rate_limiter_update_pass:
  "is_init s \<Longrightarrow> \<not> x - x_prev s \<ge> k_rise s \<Longrightarrow> \<not> x - x_prev s \<le> - k_fall s \<Longrightarrow>
     rate_limiter_update (Some s) x = (x, Some (s\<lparr>x_prev := x\<rparr>))"
  by (simp add: rate_limiter_update_def Let_def)

lemma rate_limiter_update_alt_rise:
  "is_init s \<Longrightarrow> x - x_prev s \<ge> k_rise s \<Longrightarrow>
     rate_limiter_update_alt (Some s) x =
       (x_prev s + k_rise s, Some (s\<lparr>x_prev := x_prev s + k_rise s\<rparr>))"
  by (simp add: rate_limiter_update_alt_def Let_def)

lemma rate_limiter_update_alt_fall:
  "is_init s \<Longrightarrow> \<not> x - x_prev s \<ge> k_rise s \<Longrightarrow> x - x_prev s \<le> - k_fall s \<Longrightarrow>
     rate_limiter_update_alt (Some s) x =
       (x_prev s - k_fall s, Some (s\<lparr>x_prev := x_prev s - k_fall s\<rparr>))"
  by (simp add: rate_limiter_update_alt_def Let_def)

text \<open>
  The last branch of the second file leaves \<^verbatim>\<open>y\<close> at its initial \<^verbatim>\<open>0.0f\<close>: an input
  inside both limits is answered by zero, and zero is stored.
\<close>

lemma rate_limiter_update_alt_pass:
  "is_init s \<Longrightarrow> \<not> x - x_prev s \<ge> k_rise s \<Longrightarrow> \<not> x - x_prev s \<le> - k_fall s \<Longrightarrow>
     rate_limiter_update_alt (Some s) x = (0, Some (s\<lparr>x_prev := 0\<rparr>))"
  by (simp add: rate_limiter_update_alt_def Let_def)

text \<open>
  Claim C1, as amended. For an initialised instance with previous output \<open>p\<close>, rise
  increment \<open>r\<close> and fall increment \<open>f\<close>, and every input \<open>x\<close>: the update returns
  \<open>p + r\<close> when \<open>x - p \<ge> r\<close>; it returns \<open>p - f\<close> when \<open>x - p \<le> - f\<close> and the rise test
  \<open>x - p \<ge> r\<close> has failed (the rise test is made first); it returns \<open>x\<close> when
  \<open>- f < x - p < r\<close>. In each case the returned value is stored as the new previous
  output and no other field changes. The two clamp cases hold for the second file as
  well. The comparisons need no law but that \<open>a < b\<close> means \<open>a \<le> b\<close> and not \<open>b \<le> a\<close>;
  the arithmetic needs none.
\<close>

theorem rate_limiter_update_three_cases:
  fixes s :: "'a::{zero,plus,minus,uminus,preorder} rate_limiter_t"
  assumes "is_init s"
  shows "(x - x_prev s \<ge> k_rise s \<longrightarrow>
            rate_limiter_update (Some s) x =
              (x_prev s + k_rise s, Some (s\<lparr>x_prev := x_prev s + k_rise s\<rparr>)))
       \<and> (\<not> x - x_prev s \<ge> k_rise s \<and> x - x_prev s \<le> - k_fall s \<longrightarrow>
            rate_limiter_update (Some s) x =
              (x_prev s - k_fall s, Some (s\<lparr>x_prev := x_prev s - k_fall s\<rparr>)))
       \<and> (- k_fall s < x - x_prev s \<and> x - x_prev s < k_rise s \<longrightarrow>
            rate_limiter_update (Some s) x = (x, Some (s\<lparr>x_prev := x\<rparr>)))
       \<and> (x - x_prev s \<ge> k_rise s \<longrightarrow>
            rate_limiter_update_alt (Some s) x =
              (x_prev s + k_rise s, Some (s\<lparr>x_prev := x_prev s + k_rise s\<rparr>)))
       \<and> (\<not> x - x_prev s \<ge> k_rise s \<and> x - x_prev s \<le> - k_fall s \<longrightarrow>
            rate_limiter_update_alt (Some s) x =
              (x_prev s - k_fall s, Some (s\<lparr>x_prev := x_prev s - k_fall s\<rparr>)))"
proof -
  have pass: "rate_limiter_update (Some s) x = (x, Some (s\<lparr>x_prev := x\<rparr>))"
    if "- k_fall s < x - x_prev s" and "x - x_prev s < k_rise s"
  proof -
    from that(2) have "\<not> x - x_prev s \<ge> k_rise s"
      by (simp add: less_le_not_le)
    moreover from that(1) have "\<not> x - x_prev s \<le> - k_fall s"
      by (simp add: less_le_not_le)
    ultimately show ?thesis
      using assms by (rule_tac rate_limiter_update_pass)
  qed
  show ?thesis
    using assms pass
    by (simp add: rate_limiter_update_rise rate_limiter_update_fall
        rate_limiter_update_alt_rise rate_limiter_update_alt_fall)
qed

text \<open>
  The three cases at \<open>p = 0\<close>, \<open>r = 1\<close>, \<open>f = 1/2\<close>: the input \<open>3\<close> is clamped to \<open>1\<close>,
  the input \<open>- 3\<close> to \<open>- 1/2\<close>, and \<open>1/4\<close> passes.
\<close>

theorem rate_limiter_update_three_cases_witness:
  "rate_limiter_update (Some \<lparr>x_prev = 0::real, k_rise = 1, k_fall = 1/2, dt = 1, is_init = True\<rparr>) 3
     = (1, Some \<lparr>x_prev = 1, k_rise = 1, k_fall = 1/2, dt = 1, is_init = True\<rparr>)
   \<and> rate_limiter_update (Some \<lparr>x_prev = 0::real, k_rise = 1, k_fall = 1/2, dt = 1, is_init = True\<rparr>) (- 3)
     = (- (1/2), Some \<lparr>x_prev = - (1/2), k_rise = 1, k_fall = 1/2, dt = 1, is_init = True\<rparr>)
   \<and> rate_limiter_update (Some \<lparr>x_prev = 0::real, k_rise = 1, k_fall = 1/2, dt = 1, is_init = True\<rparr>) (1/4)
     = (1/4, Some \<lparr>x_prev = 1/4, k_rise = 1, k_fall = 1/2, dt = 1, is_init = True\<rparr>)
   \<and> rate_limiter_update_alt (Some \<lparr>x_prev = 0::real, k_rise = 1, k_fall = 1/2, dt = 1, is_init = True\<rparr>) 3
     = (1, Some \<lparr>x_prev = 1, k_rise = 1, k_fall = 1/2, dt = 1, is_init = True\<rparr>)
   \<and> rate_limiter_update_alt (Some \<lparr>x_prev = 0::real, k_rise = 1, k_fall = 1/2, dt = 1, is_init = True\<rparr>) (- 3)
     = (- (1/2), Some \<lparr>x_prev = - (1/2), k_rise = 1, k_fall = 1/2, dt = 1, is_init = True\<rparr>)"
  using rate_limiter_update_three_cases
          [of "\<lparr>x_prev = 0::real, k_rise = 1, k_fall = 1/2, dt = 1, is_init = True\<rparr>" 3]
        rate_limiter_update_three_cases
          [of "\<lparr>x_prev = 0::real, k_rise = 1, k_fall = 1/2, dt = 1, is_init = True\<rparr>" "- 3"]
        rate_limiter_update_three_cases
          [of "\<lparr>x_prev = 0::real, k_rise = 1, k_fall = 1/2, dt = 1, is_init = True\<rparr>" "1/4"]
  by simp

text \<open>
  Claim C1 as it is written fails where an increment is negative, which no function
  refuses: with \<open>p = 0\<close>, \<open>r = - 1\<close>, \<open>f = - 1\<close> (the instance that
  \<^verbatim>\<open>rate_limiter_init\<close> builds from the rates \<open>- 1\<close>, \<open>- 1\<close> and the period \<open>1\<close>) and
  \<open>x = 0\<close>, the condition \<open>x - p \<le> - f\<close> of the fall clamp holds, yet the rise test
  \<open>x - p \<ge> r\<close> holds too and comes first: the update returns \<open>p + r = - 1\<close> and not
  \<open>p - f = 1\<close>.
\<close>

theorem rate_limiter_update_fall_counterexample:
  "(0::real) - 0 \<le> - (- 1)
   \<and> rate_limiter_update (Some \<lparr>x_prev = 0::real, k_rise = - 1, k_fall = - 1, dt = 1, is_init = True\<rparr>) 0
       = (- 1, Some \<lparr>x_prev = - 1, k_rise = - 1, k_fall = - 1, dt = 1, is_init = True\<rparr>)
   \<and> (- 1::real) \<noteq> 0 - (- 1)"
  by (simp add: rate_limiter_update_def Let_def)

section \<open>Initialisation\<close>

lemma rate_limiter_init_error:
  fixes dt' :: "'a::{zero,times,preorder}"
  shows "dt' \<le> 0 \<Longrightarrow>
     rate_limiter_init p_rl_inst rise_rate fall_rate dt' malloc_result =
       (eRATE_LIMITER_ERROR, p_rl_inst)"
  by (simp add: rate_limiter_init_def less_le_not_le)

lemma rate_limiter_init_ok:
  "dt' > 0 \<Longrightarrow>
     rate_limiter_init (Some h) rise_rate fall_rate dt' (Some blk) =
       (eRATE_LIMITER_OK,
        Some (Some (blk\<lparr>x_prev := 0, k_rise := rise_rate * dt', k_fall := fall_rate * dt',
                          dt := dt', is_init := True\<rparr>)))"
  by (simp add: rate_limiter_init_def rate_limiter_calc_rate_factor_def)

lemma rate_limiter_init_ok_fields:
  "rate_limiter_init p_rl_inst rise_rate fall_rate dt' malloc_result =
       (eRATE_LIMITER_OK, Some (Some s)) \<Longrightarrow>
     dt' > 0 \<and> x_prev s = 0 \<and> k_rise s = rise_rate * dt' \<and> k_fall s = fall_rate * dt'
       \<and> dt s = dt' \<and> is_init s"
  by (auto simp add: rate_limiter_init_def rate_limiter_calc_rate_factor_def
      split: if_splits option.splits)

lemma rate_limiter_init_any_handle:
  "dt' > 0 \<Longrightarrow>
     rate_limiter_init (Some h) rise_rate fall_rate dt' (Some blk) =
       rate_limiter_init (Some None) rise_rate fall_rate dt' (Some blk)
     \<and> fst (rate_limiter_init (Some h) rise_rate fall_rate dt' (Some blk)) = eRATE_LIMITER_OK"
  by (simp add: rate_limiter_init_def)

text \<open>
  Claim C2: the initialisation returns ERROR whenever \<open>dt \<le> 0\<close> and whenever the
  allocation fails, and OK only when \<open>dt > 0\<close> and the allocation succeeds. The first
  part is \<open>rate_limiter_init_error\<close>. The second fails in both files: the status is set
  to ERROR only in the \<^verbatim>\<open>else\<close> of the outer guard, so with \<open>dt = 1/4\<close> and a
  \<^verbatim>\<open>malloc\<close> that returns \<^verbatim>\<open>NULL\<close> the call returns OK and a \<^verbatim>\<open>NULL\<close> handle.
\<close>

theorem rate_limiter_init_malloc_null:
  "rate_limiter_init (Some None) (1::real) (1/2) (1/4) None = (eRATE_LIMITER_OK, Some None)
   \<and> rate_limiter_init_alt NAN
        (Some (Some \<lparr>x_prev = 0::real, k_rise = 0, k_fall = 0, dt = 0, is_init = False\<rparr>))
        1 (1/2) (1/4) None = Some (eRATE_LIMITER_OK, None)"
  by (simp add: rate_limiter_init_def rate_limiter_init_alt_def)

text \<open>
  Claim C3: a successful initialisation stores the products \<open>rise_rate * dt\<close> and
  \<open>fall_rate * dt\<close>, the previous output \<open>0\<close>, the period \<open>dt\<close> and the flag. For the
  first file this is \<open>rate_limiter_init_ok\<close> and \<open>rate_limiter_init_ok_fields\<close>. The
  second file computes the factors before it writes the period, from the \<^verbatim>\<open>dt\<close> field
  of the fresh block, and as quotients: with the rates \<open>1\<close> and \<open>1/2\<close>, the period \<open>2\<close>
  and a block whose \<^verbatim>\<open>dt\<close> field happens to hold \<open>4\<close>, it stores \<open>1/4\<close> and \<open>1/8\<close>
  where the products are \<open>2\<close> and \<open>1\<close>.
\<close>

theorem rate_limiter_init_alt_stale_period:
  "rate_limiter_init_alt NAN
      (Some (Some \<lparr>x_prev = 0::real, k_rise = 0, k_fall = 0, dt = 0, is_init = False\<rparr>))
      1 (1/2) 2
      (Some \<lparr>x_prev = 7, k_rise = 7, k_fall = 7, dt = 4, is_init = False\<rparr>)
     = Some (eRATE_LIMITER_OK,
             Some \<lparr>x_prev = 0, k_rise = 1/4, k_fall = 1/8, dt = 2, is_init = True\<rparr>)
   \<and> (1/4::real) \<noteq> 1 * 2 \<and> (1/8::real) \<noteq> 1/2 * 2"
  by (simp add: rate_limiter_init_alt_def rate_limiter_calc_rate_factor_alt_def Let_def)

text \<open>
  Claim C4: the initialisation allocates whenever \<open>dt > 0\<close>, whatever the caller's
  handle holds. For the first file this is \<open>rate_limiter_init_any_handle\<close>: its guard
  tests the address of the handle. The guard of the second file tests the handle
  itself, so the documented first call, on a handle that holds \<^verbatim>\<open>NULL\<close>, returns
  ERROR with \<open>dt = 1/4\<close> and an allocation that would succeed.
\<close>

theorem rate_limiter_init_alt_null_handle:
  "rate_limiter_init_alt NAN (Some None) (1::real) (1/2) (1/4)
      (Some \<lparr>x_prev = 7, k_rise = 7, k_fall = 7, dt = 4, is_init = False\<rparr>)
     = Some (eRATE_LIMITER_ERROR, None)
   \<and> (1/4::real) > 0"
  by (simp add: rate_limiter_init_alt_def)

section \<open>Absent and uninitialised instances\<close>

text \<open>
  Claim C5: for every input, the update of an absent instance and of an instance whose
  flag is false returns \<open>0\<close> and leaves the instance as it was;
  \<^verbatim>\<open>rate_limiter_is_init\<close> returns false for an absent instance and the stored flag
  otherwise, and changes nothing. Both files.
\<close>

theorem rate_limiter_uninitialized:
  fixes s :: "'a::{zero,plus,minus,uminus,ord} rate_limiter_t"
  shows "rate_limiter_update None x = (0, None)
   \<and> (\<not> is_init s \<longrightarrow> rate_limiter_update (Some s) x = (0, Some s))
   \<and> rate_limiter_update_alt None x = (0, None)
   \<and> (\<not> is_init s \<longrightarrow> rate_limiter_update_alt (Some s) x = (0, Some s))
   \<and> rate_limiter_is_init (None :: 'a p_rate_limiter) = (False, None)
   \<and> rate_limiter_is_init (Some s) = (is_init s, Some s)
   \<and> rate_limiter_is_init_alt (None :: 'a p_rate_limiter) = (False, None)
   \<and> rate_limiter_is_init_alt (Some s) = (is_init s, Some s)"
  by (simp add: rate_limiter_update_def rate_limiter_update_alt_def
      rate_limiter_is_init_def rate_limiter_is_init_alt_def)

theorem rate_limiter_uninitialized_witness:
  "\<not> is_init \<lparr>x_prev = 5::real, k_rise = 1, k_fall = 1, dt = 1, is_init = False\<rparr>
   \<and> rate_limiter_update (Some \<lparr>x_prev = 5::real, k_rise = 1, k_fall = 1, dt = 1, is_init = False\<rparr>) 9
       = (0, Some \<lparr>x_prev = 5, k_rise = 1, k_fall = 1, dt = 1, is_init = False\<rparr>)
   \<and> rate_limiter_update_alt (Some \<lparr>x_prev = 5::real, k_rise = 1, k_fall = 1, dt = 1, is_init = False\<rparr>) 9
       = (0, Some \<lparr>x_prev = 5, k_rise = 1, k_fall = 1, dt = 1, is_init = False\<rparr>)
   \<and> rate_limiter_is_init (Some \<lparr>x_prev = 5::real, k_rise = 1, k_fall = 1, dt = 1, is_init = False\<rparr>)
       = (False, Some \<lparr>x_prev = 5, k_rise = 1, k_fall = 1, dt = 1, is_init = False\<rparr>)"
  using rate_limiter_uninitialized
          [of 9 "\<lparr>x_prev = 5::real, k_rise = 1, k_fall = 1, dt = 1, is_init = False\<rparr>"]
  by simp

section \<open>Changing the rates\<close>

lemma rate_limiter_change_rate_ok:
  "is_init s \<Longrightarrow>
     rate_limiter_change_rate (Some s) rise_rate fall_rate =
       (eRATE_LIMITER_OK, Some (s\<lparr>k_rise := rise_rate * dt s, k_fall := fall_rate * dt s\<rparr>))"
  by (simp add: rate_limiter_change_rate_def rate_limiter_calc_rate_factor_def)

lemma rate_limiter_change_rate_error:
  "rate_limiter_change_rate None rise_rate fall_rate = (eRATE_LIMITER_ERROR, None)"
  "\<not> is_init s \<Longrightarrow>
     rate_limiter_change_rate (Some s) rise_rate fall_rate = (eRATE_LIMITER_ERROR, Some s)"
  by (simp_all add: rate_limiter_change_rate_def)

lemma rate_limiter_change_rate_alt_error:
  "rate_limiter_change_rate_alt NAN None rise_rate fall_rate = (eRATE_LIMITER_ERROR, None)"
  "\<not> is_init s \<Longrightarrow>
     rate_limiter_change_rate_alt NAN (Some s) rise_rate fall_rate =
       (eRATE_LIMITER_ERROR, Some s)"
  by (simp_all add: rate_limiter_change_rate_alt_def)

text \<open>
  Claim C6: on an initialised instance \<^verbatim>\<open>rate_limiter_change_rate\<close> stores the products
  of the rates and the stored period and returns OK; on an absent or uninitialised
  instance it returns ERROR. For the first file this is \<open>rate_limiter_change_rate_ok\<close>
  and \<open>rate_limiter_change_rate_error\<close>. The second file returns the same statuses but
  stores quotients: with the period \<open>2\<close> and the rates \<open>1\<close> and \<open>1/2\<close> it stores \<open>1/2\<close>
  and \<open>1/4\<close> where the products are \<open>2\<close> and \<open>1\<close>.
\<close>

theorem rate_limiter_change_rate_alt_quotient:
  "rate_limiter_change_rate_alt NAN
      (Some \<lparr>x_prev = 0::real, k_rise = 1, k_fall = 1, dt = 2, is_init = True\<rparr>) 1 (1/2)
     = (eRATE_LIMITER_OK,
        Some \<lparr>x_prev = 0, k_rise = 1/2, k_fall = 1/4, dt = 2, is_init = True\<rparr>)
   \<and> (1/2::real) \<noteq> 1 * 2 \<and> (1/4::real) \<noteq> 1/2 * 2"
  by (simp add: rate_limiter_change_rate_alt_def rate_limiter_calc_rate_factor_alt_def Let_def)

section \<open>The lifetime of an instance\<close>

lemma rate_limiter_call_frame:
  "\<exists>s'. rate_limiter_call (Some s) c = Some s' \<and> dt s' = dt s \<and> is_init s' = is_init s
     \<and> (case c of
           Update x \<Rightarrow> k_rise s' = k_rise s \<and> k_fall s' = k_fall s
         | Change_rate rise_rate fall_rate \<Rightarrow> x_prev s' = x_prev s
         | Is_init \<Rightarrow> s' = s)"
  by (cases c)
    (simp_all add: rate_limiter_update_def rate_limiter_change_rate_def
      rate_limiter_is_init_def Let_def)

lemma rate_limiter_calls_period:
  "\<exists>s'. rate_limiter_calls (Some s) cs = Some s' \<and> dt s' = dt s \<and> is_init s' = is_init s"
proof (induction cs arbitrary: s)
  case Nil
  show ?case by simp
next
  case (Cons c cs)
  from rate_limiter_call_frame [of s c] obtain s1 where
    s1: "rate_limiter_call (Some s) c = Some s1" "dt s1 = dt s" "is_init s1 = is_init s"
    by blast
  from Cons.IH [of s1] s1 show ?case by simp
qed

text \<open>
  Claim C7: after a successful initialisation with the period \<open>dt'\<close>, whatever sequence
  \<open>cs\<close> of calls follows, the instance is still there, still initialised, and its period
  is still \<open>dt'\<close>, which is positive; and whatever call \<open>c\<close> comes next, it keeps the
  period, an update keeps both increments, and a change of the rates or a query of the
  flag keeps the previous output (the query keeps everything).
\<close>

theorem rate_limiter_lifetime:
  assumes "rate_limiter_init p_rl_inst rise_rate fall_rate dt' malloc_result =
             (eRATE_LIMITER_OK, Some (Some s0))"
  shows "\<exists>s s'. rate_limiter_calls (Some s0) cs = Some s \<and> is_init s \<and> dt s = dt' \<and> dt s > 0
           \<and> rate_limiter_call (Some s) c = Some s' \<and> is_init s' \<and> dt s' = dt s
           \<and> (case c of
                 Update x \<Rightarrow> k_rise s' = k_rise s \<and> k_fall s' = k_fall s
               | Change_rate rise_rate fall_rate \<Rightarrow> x_prev s' = x_prev s
               | Is_init \<Rightarrow> s' = s)"
proof -
  from rate_limiter_init_ok_fields [OF assms] have s0: "dt' > 0" "dt s0 = dt'" "is_init s0"
    by simp_all
  from rate_limiter_calls_period [of s0 cs] obtain s where
    s: "rate_limiter_calls (Some s0) cs = Some s" "dt s = dt s0" "is_init s = is_init s0"
    by blast
  from rate_limiter_call_frame [of s c] obtain s' where
    s': "rate_limiter_call (Some s) c = Some s'" "dt s' = dt s" "is_init s' = is_init s"
      "case c of
         Update x \<Rightarrow> k_rise s' = k_rise s \<and> k_fall s' = k_fall s
       | Change_rate rise_rate fall_rate \<Rightarrow> x_prev s' = x_prev s
       | Is_init \<Rightarrow> s' = s"
    by blast
  from s0 s s' show ?thesis by simp
qed

theorem rate_limiter_lifetime_witness:
  "rate_limiter_init (Some None) (1::real) (1/2) (1/4)
       (Some \<lparr>x_prev = 7, k_rise = 7, k_fall = 7, dt = 7, is_init = False\<rparr>)
     = (eRATE_LIMITER_OK,
        Some (Some \<lparr>x_prev = 0, k_rise = 1/4, k_fall = 1/8, dt = 1/4, is_init = True\<rparr>))
   \<and> (\<exists>s s'. rate_limiter_calls
                (Some \<lparr>x_prev = 0::real, k_rise = 1/4, k_fall = 1/8, dt = 1/4, is_init = True\<rparr>)
                [Update 1, Change_rate 2 2, Is_init, Update 0] = Some s
            \<and> dt s = 1/4
            \<and> rate_limiter_call (Some s) (Update 3) = Some s'
            \<and> dt s' = 1/4 \<and> k_rise s' = k_rise s \<and> k_fall s' = k_fall s)"
proof -
  have init: "rate_limiter_init (Some None) (1::real) (1/2) (1/4)
       (Some \<lparr>x_prev = 7, k_rise = 7, k_fall = 7, dt = 7, is_init = False\<rparr>)
     = (eRATE_LIMITER_OK,
        Some (Some \<lparr>x_prev = 0, k_rise = 1/4, k_fall = 1/8, dt = 1/4, is_init = True\<rparr>))"
    by (simp add: rate_limiter_init_def rate_limiter_calc_rate_factor_def)
  from rate_limiter_lifetime [OF init, of "[Update 1, Change_rate 2 2, Is_init, Update 0]" "Update 3"]
  show ?thesis using init by auto
qed

section \<open>Replaying a sequence of inputs\<close>

lemma rate_limiter_update_stores_output:
  "is_init s \<Longrightarrow> \<exists>s'. rate_limiter_update (Some s) x = (x_prev s', Some s') \<and> is_init s'
      \<and> k_rise s' = k_rise s \<and> k_fall s' = k_fall s"
  by (simp add: rate_limiter_update_def Let_def)

lemma rate_limiter_update_same_output:
  "is_init a \<Longrightarrow> is_init b \<Longrightarrow> x_prev a = x_prev b \<Longrightarrow> k_rise a = k_rise b \<Longrightarrow>
     k_fall a = k_fall b \<Longrightarrow>
     fst (rate_limiter_update (Some a) x) = fst (rate_limiter_update (Some b) x)"
  by (simp add: rate_limiter_update_def Let_def)

lemma rate_limiter_updates_Cons:
  "rate_limiter_updates rl_inst (x # xs) =
     (fst (rate_limiter_update rl_inst x)
        # fst (rate_limiter_updates (snd (rate_limiter_update rl_inst x)) xs),
      snd (rate_limiter_updates (snd (rate_limiter_update rl_inst x)) xs))"
  by (simp split: prod.splits)

lemma rate_limiter_updates_same_outputs:
  "is_init a \<Longrightarrow> is_init b \<Longrightarrow> x_prev a = x_prev b \<Longrightarrow> k_rise a = k_rise b \<Longrightarrow>
     k_fall a = k_fall b \<Longrightarrow>
     fst (rate_limiter_updates (Some a) xs) = fst (rate_limiter_updates (Some b) xs)"
proof (induction xs arbitrary: a b)
  case Nil
  show ?case by simp
next
  case (Cons x xs)
  from rate_limiter_update_stores_output [OF Cons.prems(1), of x] obtain a' where
    a': "rate_limiter_update (Some a) x = (x_prev a', Some a')" "is_init a'"
      "k_rise a' = k_rise a" "k_fall a' = k_fall a"
    by blast
  from rate_limiter_update_stores_output [OF Cons.prems(2), of x] obtain b' where
    b': "rate_limiter_update (Some b) x = (x_prev b', Some b')" "is_init b'"
      "k_rise b' = k_rise b" "k_fall b' = k_fall b"
    by blast
  from rate_limiter_update_same_output [OF Cons.prems, of x] a'(1) b'(1)
  have eq: "x_prev a' = x_prev b'" by simp
  from Cons.IH [OF a'(2) b'(2) eq] a' b' Cons.prems
  have "fst (rate_limiter_updates (Some a') xs) = fst (rate_limiter_updates (Some b') xs)"
    by simp
  with a'(1) b'(1) eq show ?case
    by (simp add: rate_limiter_updates_Cons del: rate_limiter_updates.simps)
qed

text \<open>
  Claim C8: the update is a function of the instance and the input. On an initialised
  instance the value a call returns is the previous output the next call starts from,
  and two runs over the same inputs \<open>xs\<close>, from instances that agree on the previous
  output and on both increments, return the same outputs.
\<close>

theorem rate_limiter_update_replay:
  "(is_init s \<longrightarrow>
      (\<exists>y s'. rate_limiter_update (Some s) x = (y, Some s') \<and> x_prev s' = y
         \<and> rate_limiter_updates (Some s) (x # xs) =
             (y # fst (rate_limiter_updates (Some s') xs),
              snd (rate_limiter_updates (Some s') xs))))
   \<and> (is_init a \<and> is_init b \<and> x_prev a = x_prev b \<and> k_rise a = k_rise b
        \<and> k_fall a = k_fall b \<longrightarrow>
      fst (rate_limiter_updates (Some a) xs) = fst (rate_limiter_updates (Some b) xs))"
proof (intro conjI impI)
  assume "is_init s"
  from rate_limiter_update_stores_output [OF this, of x] obtain s' where
    "rate_limiter_update (Some s) x = (x_prev s', Some s')" by blast
  then show "\<exists>y s'. rate_limiter_update (Some s) x = (y, Some s') \<and> x_prev s' = y
         \<and> rate_limiter_updates (Some s) (x # xs) =
             (y # fst (rate_limiter_updates (Some s') xs),
              snd (rate_limiter_updates (Some s') xs))"
    by (simp add: rate_limiter_updates_Cons del: rate_limiter_updates.simps)
next
  assume "is_init a \<and> is_init b \<and> x_prev a = x_prev b \<and> k_rise a = k_rise b
        \<and> k_fall a = k_fall b"
  then show "fst (rate_limiter_updates (Some a) xs) = fst (rate_limiter_updates (Some b) xs)"
    by (simp add: rate_limiter_updates_same_outputs)
qed

text \<open>
  Two instances that differ in the period only, fed \<open>3\<close>, \<open>- 3\<close>, \<open>1/4\<close>: both return
  \<open>1\<close>, \<open>1/2\<close>, \<open>1/4\<close>.
\<close>

theorem rate_limiter_update_replay_witness:
  "fst (rate_limiter_updates
          (Some \<lparr>x_prev = 0::real, k_rise = 1, k_fall = 1/2, dt = 1, is_init = True\<rparr>)
          [3, - 3, 1/4])
     = fst (rate_limiter_updates
          (Some \<lparr>x_prev = 0::real, k_rise = 1, k_fall = 1/2, dt = 2, is_init = True\<rparr>)
          [3, - 3, 1/4])
   \<and> (\<exists>y s'. rate_limiter_update
               (Some \<lparr>x_prev = 0::real, k_rise = 1, k_fall = 1/2, dt = 1, is_init = True\<rparr>) 3
               = (y, Some s') \<and> x_prev s' = y
           \<and> rate_limiter_updates
               (Some \<lparr>x_prev = 0::real, k_rise = 1, k_fall = 1/2, dt = 1, is_init = True\<rparr>)
               [3, - 3, 1/4]
               = (y # fst (rate_limiter_updates (Some s') [- 3, 1/4]),
                  snd (rate_limiter_updates (Some s') [- 3, 1/4])))
   \<and> fst (rate_limiter_updates
          (Some \<lparr>x_prev = 0::real, k_rise = 1, k_fall = 1/2, dt = 1, is_init = True\<rparr>)
          [3, - 3, 1/4]) = [1, 1/2, 1/4]"
proof -
  have run: "fst (rate_limiter_updates
          (Some \<lparr>x_prev = 0::real, k_rise = 1, k_fall = 1/2, dt = 1, is_init = True\<rparr>)
          [3, - 3, 1/4]) = [1, 1/2, 1/4]"
    by (simp add: rate_limiter_update_def Let_def)
  from rate_limiter_update_replay
    [where s = "\<lparr>x_prev = 0::real, k_rise = 1, k_fall = 1/2, dt = 1, is_init = True\<rparr>"
       and x = 3 and xs = "[- 3, 1/4]"]
  have step: "\<exists>y s'. rate_limiter_update
               (Some \<lparr>x_prev = 0::real, k_rise = 1, k_fall = 1/2, dt = 1, is_init = True\<rparr>) 3
               = (y, Some s') \<and> x_prev s' = y
           \<and> rate_limiter_updates
               (Some \<lparr>x_prev = 0::real, k_rise = 1, k_fall = 1/2, dt = 1, is_init = True\<rparr>)
               [3, - 3, 1/4]
               = (y # fst (rate_limiter_updates (Some s') [- 3, 1/4]),
                  snd (rate_limiter_updates (Some s') [- 3, 1/4]))"
    by simp
  from rate_limiter_update_replay
    [where a = "\<lparr>x_prev = 0::real, k_rise = 1, k_fall = 1/2, dt = 1, is_init = True\<rparr>"
       and b = "\<lparr>x_prev = 0::real, k_rise = 1, k_fall = 1/2, dt = 2, is_init = True\<rparr>"
       and xs = "[3, - 3, 1/4]"]
  have same: "fst (rate_limiter_updates
          (Some \<lparr>x_prev = 0::real, k_rise = 1, k_fall = 1/2, dt = 1, is_init = True\<rparr>)
          [3, - 3, 1/4])
     = fst (rate_limiter_updates
          (Some \<lparr>x_prev = 0::real, k_rise = 1, k_fall = 1/2, dt = 2, is_init = True\<rparr>)
          [3, - 3, 1/4])"
    by simp
  from same step run show ?thesis by blast
qed

section \<open>Bounds and the fixpoint\<close>

text \<open>
  In exact arithmetic (a linearly ordered additive group) an update on an initialised
  instance with non-negative increments stays between the previous output less the fall
  increment and the previous output plus the rise increment.
\<close>

lemma rate_limiter_update_bounded_exact:
  fixes s :: "'a::linordered_ab_group_add rate_limiter_t"
  assumes "is_init s" and "0 \<le> k_rise s" and "0 \<le> k_fall s"
  shows "\<exists>y s'. rate_limiter_update (Some s) x = (y, Some s') \<and> x_prev s' = y
           \<and> x_prev s - k_fall s \<le> y \<and> y \<le> x_prev s + k_rise s"
proof -
  consider (rise) "x - x_prev s \<ge> k_rise s"
    | (fall) "\<not> x - x_prev s \<ge> k_rise s" "x - x_prev s \<le> - k_fall s"
    | (pass) "\<not> x - x_prev s \<ge> k_rise s" "\<not> x - x_prev s \<le> - k_fall s"
    by blast
  then show ?thesis
  proof cases
    case rise
    have "x_prev s - k_fall s \<le> x_prev s + k_rise s"
      using assms(2,3) by (simp add: diff_le_eq add_increasing2 add.assoc)
    with rate_limiter_update_rise [OF assms(1) rise] show ?thesis by simp
  next
    case fall
    have "x_prev s - k_fall s \<le> x_prev s + k_rise s"
      using assms(2,3) by (simp add: diff_le_eq add_increasing2 add.assoc)
    with rate_limiter_update_fall [OF assms(1) fall] show ?thesis by simp
  next
    case pass
    from pass have "x_prev s - k_fall s \<le> x" and "x \<le> x_prev s + k_rise s"
      by (simp_all add: not_le algebra_simps less_imp_le)
    with rate_limiter_update_pass [OF assms(1) pass] show ?thesis by simp
  qed
qed

subsection \<open>Rounding is monotone\<close>

lemma rne_mono: "t \<le> t' \<Longrightarrow> rne t \<le> rne t'"
proof -
  assume le: "t \<le> t'"
  let ?u = "\<lfloor>t + 1/2\<rfloor>" and ?u' = "\<lfloor>t' + 1/2\<rfloor>"
  have uu: "?u \<le> ?u'" using le by (simp add: floor_mono)
  have a: "rne t \<le> ?u" and b: "?u' - 1 \<le> rne t'" by (simp_all add: rne_def)
  show ?thesis
  proof (cases "?u < ?u'")
    case True
    with a b show ?thesis by linarith
  next
    case False
    with uu have eq: "?u = ?u'" by simp
    show ?thesis
    proof (cases "t' + 1/2 = of_int ?u'")
      case True
      have "of_int ?u \<le> t + 1/2" by (rule of_int_floor_le)
      with eq True le have "t = t'" by simp
      then show ?thesis by simp
    next
      case False
      then have "rne t' = ?u'" by (simp add: rne_def)
      with a eq show ?thesis by simp
    qed
  qed
qed

lemma rne_of_int [simp]: "rne (of_int n) = n"
proof -
  have "\<lfloor>of_int n + (1/2::real)\<rfloor> = n" by (simp add: floor_eq_iff)
  moreover have "of_int n + (1/2::real) \<noteq> of_int n" by simp
  ultimately show ?thesis by (simp add: rne_def)
qed

lemma rne_ge: "of_int n \<le> t \<Longrightarrow> n \<le> rne t"
  using rne_mono [of "of_int n" t] by simp

lemma rne_le: "t \<le> of_int n \<Longrightarrow> rne t \<le> n"
  using rne_mono [of t "of_int n"] by simp


lemma fexp_mono: "0 < a \<Longrightarrow> a \<le> b \<Longrightarrow> fexp a \<le> fexp b"
proof -
  assume "0 < a" "a \<le> b"
  then have "log 2 \<bar>a\<bar> \<le> log 2 \<bar>b\<bar>" by simp
  then have "\<lfloor>log 2 \<bar>a\<bar>\<rfloor> \<le> \<lfloor>log 2 \<bar>b\<bar>\<rfloor>" by (rule floor_mono)
  then show ?thesis by (simp add: fexp_def)
qed

lemma floor_log2_bounds:
  assumes "0 < q"
  shows "2 powi \<lfloor>log 2 q\<rfloor> \<le> q" and "q < 2 powi (\<lfloor>log 2 q\<rfloor> + 1)"
proof -
  from floor_log_eq_powr_iff [of q 2 "\<lfloor>log 2 q\<rfloor>"] assms
  have "2 powr real_of_int \<lfloor>log 2 q\<rfloor> \<le> q"
    and "q < 2 powr real_of_int (\<lfloor>log 2 q\<rfloor> + 1)"
    by simp_all
  then show "2 powi \<lfloor>log 2 q\<rfloor> \<le> q" and "q < 2 powi (\<lfloor>log 2 q\<rfloor> + 1)"
    by (simp_all only: powr_real_of_int' [of 2, simplified])
qed

lemma fexp_lower: "0 < q \<Longrightarrow> - 149 < fexp q \<Longrightarrow> 2 powi (fexp q + 23) \<le> q"
proof -
  assume q: "0 < q" and "- 149 < fexp q"
  then have "fexp q = \<lfloor>log 2 q\<rfloor> - 23" by (simp add: fexp_def max_def split: if_splits)
  with floor_log2_bounds(1) [OF q] show ?thesis by simp
qed

lemma fexp_upper: "0 < q \<Longrightarrow> q < 2 powi (fexp q + 24)"
proof -
  assume q: "0 < q"
  have "\<lfloor>log 2 q\<rfloor> + 1 \<le> fexp q + 24" using q by (simp add: fexp_def)
  then have "(2::real) powi (\<lfloor>log 2 q\<rfloor> + 1) \<le> 2 powi (fexp q + 24)"
    by (intro power_int_increasing) simp_all
  with floor_log2_bounds(2) [OF q] show ?thesis by linarith
qed

lemma round_pos_ge:
  assumes "fexp q \<le> k" and "2 powi k \<le> q"
  shows "2 powi k \<le> round_pos q"
proof -
  let ?e = "fexp q"
  have pos: "(0::real) < 2 powi ?e" by simp
  have split: "(2::real) powi k = 2 powi (k - ?e) * 2 powi ?e"
    by (simp add: power_int_add [symmetric])
  have int: "(2::real) powi (k - ?e) = of_int (2 ^ nat (k - ?e))"
    using assms(1) by (simp add: power_int_nonneg_exp)
  from assms(2) split pos have "2 powi (k - ?e) \<le> q / 2 powi ?e"
    by (simp add: pos_le_divide_eq)
  with int have "2 ^ nat (k - ?e) \<le> rne (q / 2 powi ?e)"
    by (intro rne_ge) simp
  then have "(of_int (2 ^ nat (k - ?e)) :: real) \<le> of_int (rne (q / 2 powi ?e))"
    by (simp only: of_int_le_iff)
  with int have "(2::real) powi (k - ?e) * 2 powi ?e \<le> of_int (rne (q / 2 powi ?e)) * 2 powi ?e"
    using pos by (simp only: mult_le_cancel_right_pos)
  with split show ?thesis by (simp add: round_pos_def)
qed

lemma round_pos_le:
  assumes "fexp q \<le> k" and "q \<le> 2 powi k"
  shows "round_pos q \<le> 2 powi k"
proof -
  let ?e = "fexp q"
  have pos: "(0::real) < 2 powi ?e" by simp
  have split: "(2::real) powi k = 2 powi (k - ?e) * 2 powi ?e"
    by (simp add: power_int_add [symmetric])
  have int: "(2::real) powi (k - ?e) = of_int (2 ^ nat (k - ?e))"
    using assms(1) by (simp add: power_int_nonneg_exp)
  from assms(2) split pos have "q / 2 powi ?e \<le> 2 powi (k - ?e)"
    by (simp add: pos_divide_le_eq)
  with int have "rne (q / 2 powi ?e) \<le> 2 ^ nat (k - ?e)"
    by (intro rne_le) simp
  then have "(of_int (rne (q / 2 powi ?e)) :: real) \<le> of_int (2 ^ nat (k - ?e))"
    by (simp only: of_int_le_iff)
  with int have "of_int (rne (q / 2 powi ?e)) * 2 powi ?e \<le> (2::real) powi (k - ?e) * 2 powi ?e"
    using pos by (simp only: mult_le_cancel_right_pos)
  with split show ?thesis by (simp add: round_pos_def)
qed

lemma round_pos_nonneg: "0 \<le> q \<Longrightarrow> 0 \<le> round_pos q"
proof -
  assume "0 \<le> q"
  then have "of_int 0 \<le> q / 2 powi fexp q" by simp
  then have "0 \<le> rne (q / 2 powi fexp q)" by (rule rne_ge)
  then show ?thesis by (simp add: round_pos_def)
qed

lemma round_pos_mono:
  assumes "0 < a" and "a \<le> b"
  shows "round_pos a \<le> round_pos b"
proof (cases "fexp a = fexp b")
  case True
  from assms(2) have "a / 2 powi fexp b \<le> b / 2 powi fexp b"
    by (simp add: divide_right_mono)
  then have "rne (a / 2 powi fexp b) \<le> rne (b / 2 powi fexp b)" by (rule rne_mono)
  then have "(of_int (rne (a / 2 powi fexp b)) :: real) \<le> of_int (rne (b / 2 powi fexp b))"
    by (simp only: of_int_le_iff)
  then show ?thesis using True by (simp add: round_pos_def)
next
  case False
  with fexp_mono [OF assms] have lt: "fexp a < fexp b" by simp
  have b: "0 < b" using assms by simp
  have "- 149 \<le> fexp a" by (simp add: fexp_def)
  with lt have "- 149 < fexp b" by simp
  from fexp_lower [OF b this] have lower: "2 powi (fexp b + 23) \<le> b" .
  from fexp_upper [OF assms(1)] have upper: "a \<le> 2 powi (fexp a + 24)" by simp
  have "round_pos a \<le> 2 powi (fexp a + 24)"
    using upper by (intro round_pos_le) simp_all
  also have "(2::real) powi (fexp a + 24) \<le> 2 powi (fexp b + 23)"
    using lt by (intro power_int_increasing) simp_all
  also have "2 powi (fexp b + 23) \<le> round_pos b"
    using lower by (intro round_pos_ge) simp_all
  finally show ?thesis .
qed

lemma fexp_abs [simp]: "fexp \<bar>q\<bar> = fexp q"
  by (simp add: fexp_def)

lemma round_fin_mono:
  assumes "a \<le> b"
  shows "round_fin a \<le> round_fin b"
proof -
  consider (neg) "b < 0" | (mid) "a \<le> 0" "0 \<le> b" | (pos) "0 < a"
    using assms by linarith
  then show ?thesis
  proof cases
    case neg
    with assms have a: "a < 0" by simp
    from neg assms have "round_pos \<bar>b\<bar> \<le> round_pos \<bar>a\<bar>"
      by (intro round_pos_mono) simp_all
    with neg a show ?thesis by (simp add: round_fin_def)
  next
    case mid
    have "round_fin a \<le> 0"
      using mid(1) round_pos_nonneg [of "\<bar>a\<bar>"] by (simp add: round_fin_def sgn_if)
    moreover have "0 \<le> round_fin b"
      using mid(2) round_pos_nonneg [of "\<bar>b\<bar>"] by (simp add: round_fin_def sgn_if)
    ultimately show ?thesis by simp
  next
    case pos
    with assms have b: "0 < b" by simp
    from pos assms have "round_pos \<bar>a\<bar> \<le> round_pos \<bar>b\<bar>"
      by (intro round_pos_mono) simp_all
    with pos b show ?thesis by (simp add: round_fin_def)
  qed
qed

lemma round32_not_NaN [simp]: "round32 q \<noteq> NaN"
  by (simp add: round32_def Let_def)

lemma round32_mono: "a \<le> b \<Longrightarrow> round32 a \<le> round32 b"
  using round_fin_mono [of a b]
  by (auto simp add: round32_def Let_def less_eq_float32_def)

lemma floor_log2_less:
  assumes "0 < q" and "q < 2 powi k"
  shows "\<lfloor>log 2 q\<rfloor> < k"
proof (rule ccontr)
  assume "\<not> \<lfloor>log 2 q\<rfloor> < k"
  then have "(2::real) powi k \<le> 2 powi \<lfloor>log 2 q\<rfloor>"
    by (intro power_int_increasing) simp_all
  with floor_log2_bounds(1) [OF assms(1)] assms(2) show False by linarith
qed

lemma floor_log2_ge:
  assumes "0 < q" and "2 powi k \<le> q"
  shows "k \<le> \<lfloor>log 2 q\<rfloor>"
proof (rule ccontr)
  assume "\<not> k \<le> \<lfloor>log 2 q\<rfloor>"
  then have "(2::real) powi (\<lfloor>log 2 q\<rfloor> + 1) \<le> 2 powi k"
    by (intro power_int_increasing) simp_all
  with floor_log2_bounds(2) [OF assms(1)] assms(2) show False by linarith
qed

lemma fexp_eq:
  assumes "2 powi k \<le> \<bar>q\<bar>" and "\<bar>q\<bar> < 2 powi (k + 1)"
  shows "fexp q = max (k - 23) (- 149)"
proof -
  have pos: "0 < \<bar>q\<bar>"
    using assms(1) zero_less_power_int [of "2::real" k] by linarith
  from floor_log2_less [OF pos assms(2)] floor_log2_ge [OF pos assms(1)]
  have "\<lfloor>log 2 \<bar>q\<bar>\<rfloor> = k" by simp
  then show ?thesis by (simp add: fexp_def)
qed

lemma round32_exact:
  assumes "\<bar>m\<bar> < 2 ^ 24" and "- 149 \<le> e" and "e \<le> 104"
  shows "round32 (of_int m * 2 powi e) = Finite (of_int m * 2 powi e)"
proof (cases "m = 0")
  case True
  then show ?thesis by (simp add: round32_def round_fin_def)
next
  case False
  define q :: real where "q = of_int m * 2 powi e"
  have absq: "\<bar>q\<bar> = of_int \<bar>m\<bar> * 2 powi e"
    by (simp add: q_def abs_mult)
  have q0: "q \<noteq> 0" using False by (simp add: q_def)
  then have pos: "0 < \<bar>q\<bar>" by simp
  from assms(1) have "(of_int \<bar>m\<bar> :: real) < of_int (2 ^ 24)"
    by (simp only: of_int_less_iff)
  then have "of_int \<bar>m\<bar> * 2 powi e < (2::real) powi 24 * 2 powi e"
    by simp
  then have lt: "\<bar>q\<bar> < 2 powi (e + 24)"
    by (simp add: absq power_int_add)
  from floor_log2_less [OF pos lt] assms(2) have fe: "fexp q \<le> e"
    by (simp add: fexp_def)
  define d where "d = nat (e - fexp q)"
  have e_split: "(2::real) powi e = of_int (2 ^ d) * 2 powi fexp q"
  proof -
    have "(2::real) powi e = 2 powi (e - fexp q) * 2 powi fexp q"
      by (simp add: power_int_add [symmetric])
    also have "(2::real) powi (e - fexp q) = of_int (2 ^ d)"
      using fe by (simp add: d_def power_int_nonneg_exp)
    finally show ?thesis .
  qed
  have "\<bar>q\<bar> / 2 powi fexp q = of_int (\<bar>m\<bar> * 2 ^ d)"
    by (simp add: absq e_split)
  then have r: "rne (\<bar>q\<bar> / 2 powi fexp q) = \<bar>m\<bar> * 2 ^ d"
    by (simp only: rne_of_int)
  have "round_pos \<bar>q\<bar> = of_int (rne (\<bar>q\<bar> / 2 powi fexp q)) * 2 powi fexp q"
    by (simp add: round_pos_def)
  also have "\<dots> = of_int (\<bar>m\<bar> * 2 ^ d) * 2 powi fexp q"
    by (simp only: r)
  also have "\<dots> = of_int \<bar>m\<bar> * (of_int (2 ^ d) * 2 powi fexp q)"
    by simp
  also have "\<dots> = \<bar>q\<bar>"
    by (simp only: absq e_split [symmetric])
  finally have "round_pos \<bar>q\<bar> = \<bar>q\<bar>" .
  then have fin: "round_fin q = q"
    using q0 by (simp add: round_fin_def sgn_if)
  have "(2::real) powi (e + 24) \<le> 2 powi 128"
    using assms(3) by (intro power_int_increasing) simp_all
  with lt have "\<bar>q\<bar> < 2 ^ 128" by simp
  then have "\<not> q \<ge> 2 ^ 128" and "\<not> q \<le> - (2 ^ 128)" by linarith+
  with fin show ?thesis by (simp add: round32_def Let_def q_def)
qed

lemma is_float32_exact:
  "\<bar>m\<bar> < 2 ^ 24 \<Longrightarrow> - 149 \<le> e \<Longrightarrow> e \<le> 104 \<Longrightarrow> is_float32 (Finite (of_int m * 2 powi e))"
  by (simp add: is_float32_def round32_exact)

subsection \<open>The order and the sum of float32\<close>

lemma float32_le_NaN [simp]: "\<not> float32_le a NaN" "\<not> float32_le NaN a"
  by (cases a; simp)+

lemma float32_le_refl: "a \<noteq> NaN \<Longrightarrow> a \<le> (a::float32)"
  by (cases a) (simp_all add: less_eq_float32_def)

lemma float32_le_trans: "a \<le> b \<Longrightarrow> b \<le> c \<Longrightarrow> a \<le> (c::float32)"
  by (cases a; cases b; cases c) (simp_all add: less_eq_float32_def)

lemma float32_neg_le_zero: "0 \<le> f \<Longrightarrow> - f \<le> (0::float32)"
  by (cases f) (simp_all add: less_eq_float32_def zero_float32_def uminus_float32_def)

lemma float32_add_mono:
  fixes a b c :: float32
  assumes "b \<le> c" and "a + b \<noteq> NaN" and "a + c \<noteq> NaN"
  shows "a + b \<le> a + c"
proof (cases a)
  case (Finite p)
  show ?thesis
  proof (cases b)
    case b: (Finite q)
    show ?thesis
    proof (cases c)
      case c: (Finite q')
      from assms(1) b c have "p + q \<le> p + q'" by (simp add: less_eq_float32_def)
      from round32_mono [OF this] Finite b c show ?thesis by (simp add: plus_float32_def)
    next
      case PInf
      with Finite b show ?thesis
        by (cases "round32 (p + q)") (simp_all add: plus_float32_def less_eq_float32_def)
    next
      case NInf
      with assms(1) b show ?thesis by (simp add: less_eq_float32_def)
    next
      case NaN
      with assms(1) show ?thesis by (simp add: less_eq_float32_def)
    qed
  next
    case PInf
    with assms(1) Finite show ?thesis
      by (cases c) (simp_all add: plus_float32_def less_eq_float32_def)
  next
    case NInf
    with assms Finite show ?thesis
      by (cases c; cases "a + c") (simp_all add: plus_float32_def less_eq_float32_def)
  next
    case NaN
    with assms(1) show ?thesis by (simp add: less_eq_float32_def)
  qed
next
  case PInf
  with assms show ?thesis
    by (cases b; cases c) (simp_all add: plus_float32_def less_eq_float32_def)
next
  case NInf
  with assms show ?thesis
    by (cases b; cases c) (simp_all add: plus_float32_def less_eq_float32_def)
next
  case NaN
  with assms(2) show ?thesis by (simp add: plus_float32_def)
qed

lemma float32_bounds_ordered:
  fixes p r f :: float32
  assumes "0 \<le> r" and "0 \<le> f" and "p - f \<noteq> NaN" and "p + r \<noteq> NaN"
  shows "p - f \<le> p + r"
proof -
  from float32_neg_le_zero [OF assms(2)] assms(1) have "- f \<le> r"
    by (rule float32_le_trans)
  moreover have "p - f = p + (- f)"
    by (simp add: minus_float32_def plus_float32_def uminus_float32_def)
  ultimately show ?thesis
    using assms(3,4) float32_add_mono [of "- f" r p] by simp
qed

lemma float32_pass_upper:
  fixes x p r :: float32
  assumes "is_float32 x" and "is_float32 r" and "p \<noteq> NaN" and "p + r \<noteq> NaN"
    and "\<not> r \<le> x - p"
  shows "x \<le> p + r"
proof (cases x)
  case x: (Finite a)
  show ?thesis
  proof (cases p)
    case p: (Finite b)
    show ?thesis
    proof (cases r)
      case r: (Finite c)
      from assms(2) r have rr: "round32 c = Finite c" by (simp add: is_float32_def)
      from assms(1) x have rx: "round32 a = Finite a" by (simp add: is_float32_def)
      have "\<not> c \<le> a - b"
      proof
        assume "c \<le> a - b"
        from round32_mono [OF this] rr have "Finite c \<le> round32 (a - b)" by simp
        with assms(5) x p r show False
          by (simp add: minus_float32_def)
      qed
      then have "a \<le> b + c" by simp
      from round32_mono [OF this] rx x p r show ?thesis by (simp add: plus_float32_def)
    next
      case PInf
      with x p show ?thesis by (simp add: plus_float32_def less_eq_float32_def)
    next
      case NInf
      with assms(5) x p show ?thesis
        by (cases "round32 (a - b)") (simp_all add: minus_float32_def less_eq_float32_def)
    next
      case NaN
      with assms(2) show ?thesis by (simp add: is_float32_def)
    qed
  next
    case PInf
    with assms(4) x show ?thesis
      by (cases r) (simp_all add: plus_float32_def less_eq_float32_def)
  next
    case NInf
    with assms(2,5) x show ?thesis
      by (cases r) (simp_all add: is_float32_def minus_float32_def less_eq_float32_def)
  next
    case NaN
    with assms(3) show ?thesis by simp
  qed
next
  case PInf
  with assms(3,4,5) show ?thesis
    by (cases p; cases r) (simp_all add: plus_float32_def minus_float32_def less_eq_float32_def)
next
  case NInf
  with assms(4) show ?thesis
    by (cases "p + r") (simp_all add: less_eq_float32_def)
next
  case NaN
  with assms(1) show ?thesis by (simp add: is_float32_def)
qed

lemma float32_pass_lower:
  fixes x p f :: float32
  assumes "is_float32 x" and "is_float32 f" and "p \<noteq> NaN" and "p - f \<noteq> NaN"
    and "\<not> x - p \<le> - f"
  shows "p - f \<le> x"
proof (cases x)
  case x: (Finite a)
  show ?thesis
  proof (cases p)
    case p: (Finite b)
    show ?thesis
    proof (cases f)
      case f: (Finite c)
      from assms(2) f have rf: "round32 c = Finite c" by (simp add: is_float32_def)
      have rnf: "round32 (- c) = Finite (- c)"
        using rf by (auto simp add: round32_def Let_def round_fin_def sgn_if split: if_splits)
      from assms(1) x have rx: "round32 a = Finite a" by (simp add: is_float32_def)
      have "\<not> a - b \<le> - c"
      proof
        assume "a - b \<le> - c"
        from round32_mono [OF this] rnf have "round32 (a - b) \<le> Finite (- c)" by simp
        with assms(5) x p f show False
          by (simp add: minus_float32_def uminus_float32_def)
      qed
      then have "b - c \<le> a" by simp
      from round32_mono [OF this] rx x p f show ?thesis by (simp add: minus_float32_def)
    next
      case PInf
      with x p show ?thesis by (simp add: minus_float32_def less_eq_float32_def)
    next
      case NInf
      with assms(5) x p show ?thesis
        by (cases "round32 (a - b)") (simp_all add: minus_float32_def uminus_float32_def less_eq_float32_def)
    next
      case NaN
      with assms(2) show ?thesis by (simp add: is_float32_def)
    qed
  next
    case PInf
    with assms(2,5) x show ?thesis
      by (cases f)
        (simp_all add: is_float32_def minus_float32_def uminus_float32_def less_eq_float32_def)
  next
    case NInf
    with assms(4) x show ?thesis
      by (cases f) (simp_all add: minus_float32_def less_eq_float32_def)
  next
    case NaN
    with assms(3) show ?thesis by simp
  qed
next
  case PInf
  with assms(4) show ?thesis
    by (cases "p - f") (simp_all add: less_eq_float32_def)
next
  case NInf
  with assms(3,4,5) show ?thesis
    by (cases p; cases f) (simp_all add: minus_float32_def uminus_float32_def less_eq_float32_def)
next
  case NaN
  with assms(1) show ?thesis by (simp add: is_float32_def)
qed

subsection \<open>The bound in float32\<close>

text \<open>
  Claim C9, as amended. On an initialised instance whose previous output \<open>p\<close> and
  increments \<open>k_rise \<ge> 0\<close>, \<open>k_fall \<ge> 0\<close> are float32 values other than NaN, such that
  neither \<open>p - k_fall\<close> nor \<open>p + k_rise\<close> is NaN, and for every input that is a float32
  value other than NaN, the value the update returns, which is the new previous output,
  lies between \<open>p - k_fall\<close> and \<open>p + k_rise\<close>, where the difference, the sum and the
  comparisons are those of float32, as the code computes them. The difference and the
  sum are rounded, so the step taken as a real number can exceed the increment by that
  rounding.
\<close>

theorem rate_limiter_update_float32_bounded:
  fixes s :: "float32 rate_limiter_t"
  assumes "is_init s"
    and "is_float32 (x_prev s)" and "is_float32 (k_rise s)" and "is_float32 (k_fall s)"
    and "is_float32 x"
    and "0 \<le> k_rise s" and "0 \<le> k_fall s"
    and "x_prev s - k_fall s \<noteq> NaN" and "x_prev s + k_rise s \<noteq> NaN"
  shows "\<exists>y s'. rate_limiter_update (Some s) x = (y, Some s') \<and> x_prev s' = y
           \<and> x_prev s - k_fall s \<le> y \<and> y \<le> x_prev s + k_rise s"
proof -
  have p: "x_prev s \<noteq> NaN" using assms(2) by (auto simp add: is_float32_def)
  have ord: "x_prev s - k_fall s \<le> x_prev s + k_rise s"
    using assms(6-9) by (rule float32_bounds_ordered)
  consider (rise) "x - x_prev s \<ge> k_rise s"
    | (fall) "\<not> x - x_prev s \<ge> k_rise s" "x - x_prev s \<le> - k_fall s"
    | (pass) "\<not> x - x_prev s \<ge> k_rise s" "\<not> x - x_prev s \<le> - k_fall s"
    by blast
  then show ?thesis
  proof cases
    case rise
    from rate_limiter_update_rise [OF assms(1) rise] ord float32_le_refl [OF assms(9)]
    show ?thesis by simp
  next
    case fall
    from rate_limiter_update_fall [OF assms(1) fall] ord float32_le_refl [OF assms(8)]
    show ?thesis by simp
  next
    case pass
    from float32_pass_upper [OF assms(5) assms(3) p assms(9) pass(1)]
      float32_pass_lower [OF assms(5) assms(4) p assms(8) pass(2)]
      rate_limiter_update_pass [OF assms(1) pass]
    show ?thesis by simp
  qed
qed

text \<open>
  At \<open>p = 2\<close>, \<open>k_rise = 1\<close>, \<open>k_fall = 1/2\<close> the input \<open>9\<close> is answered by \<open>3\<close>.
\<close>

theorem rate_limiter_update_float32_bounded_witness:
  "is_float32 (Finite 2) \<and> is_float32 (Finite 1) \<and> is_float32 (Finite (1/2))
   \<and> is_float32 (Finite 9)
   \<and> (\<exists>y s'. rate_limiter_update
              (Some \<lparr>x_prev = Finite 2, k_rise = Finite 1, k_fall = Finite (1/2),
                      dt = Finite 1, is_init = True\<rparr>) (Finite 9)
              = (y, Some s')
          \<and> x_prev s' = y \<and> Finite 2 - Finite (1/2) \<le> y \<and> y \<le> Finite 2 + Finite 1)
   \<and> rate_limiter_update
         (Some \<lparr>x_prev = Finite 2, k_rise = Finite 1, k_fall = Finite (1/2),
                 dt = Finite 1, is_init = True\<rparr>) (Finite 9)
       = (Finite 3, Some \<lparr>x_prev = Finite 3, k_rise = Finite 1, k_fall = Finite (1/2),
                             dt = Finite 1, is_init = True\<rparr>)"
proof -
  have f2: "is_float32 (Finite 2)" using is_float32_exact [of 1 1] by simp
  have f1: "is_float32 (Finite 1)" using is_float32_exact [of 1 0] by simp
  have fh: "is_float32 (Finite (1/2))" using is_float32_exact [of 1 "- 1"] by simp
  have f9: "is_float32 (Finite 9)" using is_float32_exact [of 9 0] by simp
  have r7: "round32 7 = Finite 7" using round32_exact [of 7 0] by simp
  have r3: "round32 3 = Finite 3" using round32_exact [of 3 0] by simp
  from rate_limiter_update_float32_bounded
    [of "\<lparr>x_prev = Finite 2, k_rise = Finite 1, k_fall = Finite (1/2),
           dt = Finite 1, is_init = True\<rparr>" "Finite 9"]
    f2 f1 fh f9
  have bound: "\<exists>y s'. rate_limiter_update
              (Some \<lparr>x_prev = Finite 2, k_rise = Finite 1, k_fall = Finite (1/2),
                      dt = Finite 1, is_init = True\<rparr>) (Finite 9)
              = (y, Some s')
          \<and> x_prev s' = y \<and> Finite 2 - Finite (1/2) \<le> y \<and> y \<le> Finite 2 + Finite 1"
    by (simp add: zero_float32_def less_eq_float32_def minus_float32_def plus_float32_def)
  have eval: "rate_limiter_update
         (Some \<lparr>x_prev = Finite 2, k_rise = Finite 1, k_fall = Finite (1/2),
                 dt = Finite 1, is_init = True\<rparr>) (Finite 9)
       = (Finite 3, Some \<lparr>x_prev = Finite 3, k_rise = Finite 1, k_fall = Finite (1/2),
                             dt = Finite 1, is_init = True\<rparr>)"
    by (simp add: rate_limiter_update_def Let_def less_eq_float32_def minus_float32_def
        plus_float32_def uminus_float32_def r7 r3)
  from f2 f1 fh f9 bound eval show ?thesis by blast
qed

text \<open>
  Claim C9 as it is written fails on float32 in two ways. The input NaN fails both
  tests of the update, so it is returned and stored, and NaN lies in no interval. And
  with \<open>p = 2 ^ 24\<close>, \<open>k_rise = 3\<close> and the input \<open>10 ^ 9\<close> the update returns the
  rounded sum \<open>16777220\<close>: the stored output has moved by \<open>4\<close>.
\<close>

theorem rate_limiter_update_float32_counterexample:
  "(0::float32) \<le> Finite 1
   \<and> rate_limiter_update
         (Some \<lparr>x_prev = Finite 0, k_rise = Finite 1, k_fall = Finite 1,
                 dt = Finite 1, is_init = True\<rparr>) NaN
       = (NaN, Some \<lparr>x_prev = NaN, k_rise = Finite 1, k_fall = Finite 1,
                        dt = Finite 1, is_init = True\<rparr>)
   \<and> \<not> Finite 0 - Finite 1 \<le> NaN \<and> \<not> NaN \<le> Finite 0 + Finite 1
   \<and> (0::float32) \<le> Finite 3
   \<and> rate_limiter_update
         (Some \<lparr>x_prev = Finite 16777216, k_rise = Finite 3, k_fall = Finite 1,
                 dt = Finite 1, is_init = True\<rparr>) (Finite 1000000000)
       = (Finite 16777220, Some \<lparr>x_prev = Finite 16777220, k_rise = Finite 3,
                                    k_fall = Finite 1, dt = Finite 1, is_init = True\<rparr>)
   \<and> (16777216::real) + 3 < 16777220"
proof -
  have r1: "round32 983222784 = Finite 983222784"
    using round32_exact [of 15362856 6] by simp
  have "fexp 16777219 = 1"
    using fexp_eq [of 24 16777219] by simp
  then have r2: "round32 16777219 = Finite 16777220"
    by (simp add: round32_def round_fin_def round_pos_def rne_def Let_def)
  have nan: "rate_limiter_update
         (Some \<lparr>x_prev = Finite 0, k_rise = Finite 1, k_fall = Finite 1,
                 dt = Finite 1, is_init = True\<rparr>) NaN
       = (NaN, Some \<lparr>x_prev = NaN, k_rise = Finite 1, k_fall = Finite 1,
                        dt = Finite 1, is_init = True\<rparr>)"
    by (simp add: rate_limiter_update_def Let_def less_eq_float32_def minus_float32_def
        uminus_float32_def)
  have rnd: "rate_limiter_update
         (Some \<lparr>x_prev = Finite 16777216, k_rise = Finite 3, k_fall = Finite 1,
                 dt = Finite 1, is_init = True\<rparr>) (Finite 1000000000)
       = (Finite 16777220, Some \<lparr>x_prev = Finite 16777220, k_rise = Finite 3,
                                    k_fall = Finite 1, dt = Finite 1, is_init = True\<rparr>)"
    by (simp add: rate_limiter_update_def Let_def less_eq_float32_def minus_float32_def
        plus_float32_def uminus_float32_def r1 r2)
  show ?thesis
    using nan rnd by (simp add: less_eq_float32_def zero_float32_def)
qed

text \<open>
  Claim C10: on an initialised instance whose increments are both positive, the update
  with the previous output as its input returns that value and leaves the instance as it
  was. The proof uses the laws of an ordered additive group.
\<close>

theorem rate_limiter_update_fixpoint:
  fixes s :: "'a::ordered_ab_group_add rate_limiter_t"
  assumes "is_init s" and "0 < k_rise s" and "0 < k_fall s"
  shows "rate_limiter_update (Some s) (x_prev s) = (x_prev s, Some s)"
proof -
  from assms(2) have r: "\<not> x_prev s - x_prev s \<ge> k_rise s"
    by (simp add: less_le_not_le)
  from assms(3) have f: "\<not> x_prev s - x_prev s \<le> - k_fall s"
    by (simp add: less_le_not_le)
  from rate_limiter_update_pass [OF assms(1) r f] show ?thesis by simp
qed

theorem rate_limiter_update_fixpoint_witness:
  "rate_limiter_update (Some \<lparr>x_prev = 2::real, k_rise = 1, k_fall = 1/2, dt = 1, is_init = True\<rparr>) 2
     = (2, Some \<lparr>x_prev = 2, k_rise = 1, k_fall = 1/2, dt = 1, is_init = True\<rparr>)"
  using rate_limiter_update_fixpoint
          [of "\<lparr>x_prev = 2::real, k_rise = 1, k_fall = 1/2, dt = 1, is_init = True\<rparr>"]
  by simp

end
